theory Spec2Isabelle
  imports Complex_Main "HOL-Library.Sublist"
begin

section \<open>Surveillance pipeline: a shallow embedding of \<^verbatim>\<open>app.py\<close>\<close>

text \<open>
  The program is one Python module: a capture and detection loop running in a worker
  thread, a list of connected WebSockets that every detection batch is broadcast to,
  start and stop handlers, and a threat analysis of the objects accumulated over a
  session that asks an external service first and falls back to a keyword heuristic.

  Python exceptions are values of the type \<open>py_error\<close>; a function that can raise
  returns \<open>py_error + 'a\<close> with \<open>Inl\<close> for the exception. A call that may never
  return has an \<open>option\<close> result, \<open>None\<close> standing for no return. Strings are byte
  strings (UTF-8), so every ASCII character is one \<open>char\<close>.
\<close>

datatype py_error =
    ValueError | KeyError | IndexError | TypeError | JSONDecodeError
  | ImportError | RequestException | OverflowError | Cv2Error

subsection \<open>The list of connected WebSockets\<close>

text \<open>
  A WebSocket object is identified by a number. \<open>connected_websockets\<close> is a Python
  list: \<open>append\<close> adds at the end, \<open>remove\<close> deletes the first occurrence and raises
  ValueError when there is none.
\<close>

type_synonym websocket = nat

definition list_append :: "'a \<Rightarrow> 'a list \<Rightarrow> 'a list" where
  "list_append x xs = xs @ [x]"

definition list_remove :: "'a \<Rightarrow> 'a list \<Rightarrow> py_error + 'a list" where
  "list_remove x xs = (if x \<in> set xs then Inr (remove1 x xs) else Inl ValueError)"

text \<open>
  \<open>websocket_endpoint\<close>: the socket is appended on connect; when \<open>receive_text\<close> raises
  WebSocketDisconnect the handler runs \<open>connected_websockets.remove(websocket)\<close>.
\<close>

definition websocket_connect :: "websocket \<Rightarrow> websocket list \<Rightarrow> websocket list" where
  "websocket_connect ws connected_websockets = list_append ws connected_websockets"

definition websocket_disconnect :: "websocket \<Rightarrow> websocket list \<Rightarrow> py_error + websocket list" where
  "websocket_disconnect ws connected_websockets = list_remove ws connected_websockets"

text \<open>
  The broadcast runs in the worker thread (\<open>asyncio.run\<close> on line 104), the endpoint
  in the server's thread, and both work on the same list without a lock. What the
  endpoint does to the list while a broadcast is under way is given as a schedule: one
  list of actions for every time the broadcast reads the list, carried out just before
  that read. An exception that \<open>remove\<close> raises in the endpoint stays in the
  endpoint and leaves the list as it is. A schedule that has run out means that
  nothing more happens in the other thread.
\<close>

datatype action = Connects websocket | Disconnects websocket

fun endpoint :: "action \<Rightarrow> websocket list \<Rightarrow> websocket list" where
  "endpoint (Connects ws) connected_websockets = websocket_connect ws connected_websockets"
| "endpoint (Disconnects ws) connected_websockets =
     (case websocket_disconnect ws connected_websockets of
        Inl e \<Rightarrow> connected_websockets
      | Inr connected_websockets' \<Rightarrow> connected_websockets')"

definition endpoint_runs :: "action list \<Rightarrow> websocket list \<Rightarrow> websocket list" where
  "endpoint_runs acts connected_websockets = fold endpoint acts connected_websockets"

fun now_and_later :: "action list list \<Rightarrow> action list \<times> action list list" where
  "now_and_later [] = ([], [])"
| "now_and_later (acts # later) = (acts, later)"

fun is_connect :: "action \<Rightarrow> bool" where
  "is_connect (Connects ws) = True"
| "is_connect (Disconnects ws) = False"

text \<open>
  What \<open>broadcast_detection_data\<close> does to the outside, in the order it does it: the
  sends it attempts (with their outcome) and the removals it performs.
\<close>

datatype hub_event = SendText websocket bool | Remove websocket

text \<open>
  The first loop of \<open>broadcast_detection_data\<close>. A \<open>for\<close> loop over a Python list
  keeps an index \<open>i\<close> into the list itself: every round reads the length, stops when
  \<open>i\<close> has reached it, and takes the element at \<open>i\<close> otherwise. \<open>send_ok ws\<close> tells
  whether \<open>ws.send_text\<close> returns (\<open>True\<close>) or raises (\<open>False\<close>); the bare \<open>except\<close>
  catches whatever is raised and appends the socket to \<open>disconnected\<close>. The result is
  the list as the loop leaves it, the final \<open>disconnected\<close>, the rest of the schedule
  and the sends attempted.
\<close>

function send_loop ::
  "(websocket \<Rightarrow> bool) \<Rightarrow> action list list \<Rightarrow> nat \<Rightarrow> websocket list \<Rightarrow> websocket list
     \<Rightarrow> websocket list \<times> websocket list \<times> action list list \<times> hub_event list"
where
  "send_loop send_ok schedule i live disconnected =
     (let live' = endpoint_runs (fst (now_and_later schedule)) live;
          later = snd (now_and_later schedule)
      in if i < length live' then
           (let ws = live' ! i;
                disconnected' = (if send_ok ws then disconnected else list_append ws disconnected);
                (l, d, s, evs) = send_loop send_ok later (Suc i) live' disconnected'
            in (l, d, s, SendText ws (send_ok ws) # evs))
         else (live', disconnected, later, []))"
  by pat_completeness auto
termination
proof -
  have grow: "length (endpoint_runs acts l) \<le> length l + length (filter is_connect acts)"
    for acts l
    unfolding endpoint_runs_def
  proof (induction acts arbitrary: l)
    case Nil
    show ?case by simp
  next
    case (Cons a acts)
    have "length (endpoint a l) \<le> length l + (if is_connect a then 1 else 0)"
      by (cases a)
         (auto simp: websocket_connect_def websocket_disconnect_def list_append_def
            list_remove_def length_remove1)
    with Cons.IH[of "endpoint a l"] show ?case by auto
  qed
  have split: "length (filter is_connect (concat schedule))
      = length (filter is_connect (fst (now_and_later schedule)))
        + length (filter is_connect (concat (snd (now_and_later schedule))))"
    for schedule
    by (cases schedule) simp_all
  show ?thesis
  proof (relation "measure (\<lambda>(send_ok, schedule, i, live, disconnected).
      length (filter is_connect (concat schedule)) + (length live - i))")
    show "wf (measure (\<lambda>(send_ok, schedule, i, live, disconnected).
      length (filter is_connect (concat schedule)) + (length live - i)))"
      by simp
  next
    fix send_ok :: "websocket \<Rightarrow> bool" and schedule i live and disconnected :: "websocket list"
      and x xa xb xc
    assume x: "x = endpoint_runs (fst (now_and_later schedule)) live"
      and xa: "xa = snd (now_and_later schedule)" and lt: "i < length x"
    from grow[of "fst (now_and_later schedule)" live] x
    have "length x \<le> length live + length (filter is_connect (fst (now_and_later schedule)))"
      by simp
    with lt split[of schedule] xa
    show "((send_ok, xa, Suc i, x, xc), send_ok, schedule, i, live, disconnected)
        \<in> measure (\<lambda>(send_ok, schedule, i, live, disconnected).
             length (filter is_connect (concat schedule)) + (length live - i))"
      by simp
  qed
qed

declare send_loop.simps [simp del]

text \<open>The second loop: \<open>for ws in disconnected: connected_websockets.remove(ws)\<close>.\<close>

fun remove_loop ::
  "action list list \<Rightarrow> websocket list \<Rightarrow> websocket list
     \<Rightarrow> py_error option \<times> websocket list \<times> hub_event list"
where
  "remove_loop schedule [] live = (None, live, [])"
| "remove_loop schedule (ws # rest) live =
     (let live' = endpoint_runs (fst (now_and_later schedule)) live;
          later = snd (now_and_later schedule)
      in case list_remove ws live' of
           Inl e \<Rightarrow> (Some e, live', [])
         | Inr live'' \<Rightarrow>
             (let (r, l, evs) = remove_loop later rest live'' in (r, l, Remove ws # evs)))"

text \<open>
  The whole function: the exception that leaves it, if any, the list afterwards, and
  what it did. The exception is not caught in \<open>detection_loop\<close> either.
\<close>

definition broadcast_detection_data ::
  "(websocket \<Rightarrow> bool) \<Rightarrow> action list list \<Rightarrow> websocket list
     \<Rightarrow> py_error option \<times> websocket list \<times> hub_event list"
where
  "broadcast_detection_data send_ok schedule connected_websockets =
     (if connected_websockets \<noteq> [] then
        (let (live, disconnected, later, sends) =
               send_loop send_ok schedule 0 connected_websockets [];
             (r, live', removals) = remove_loop later disconnected live
         in (r, live', sends @ removals))
      else (None, connected_websockets, []))"

subsection \<open>The session: capture handle, streaming flag, worker thread\<close>

text \<open>
  The module keeps three globals, \<open>video_capture\<close>, \<open>streaming\<close> and
  \<open>detection_thread\<close>. Capture objects and threads are identified by numbers. Beside
  the globals the state records what the handlers observe through method calls: the
  capture objects for which \<open>isOpened()\<close> holds and the threads for which
  \<open>is_alive()\<close> holds. \<open>next_id\<close> numbers the next object created.
\<close>

record session =
  video_capture :: "nat option"
  streaming :: bool
  detection_thread :: "nat option"
  opened :: "nat set"
  alive :: "nat set"
  next_id :: nat

datatype session_event =
    Release nat | OpenCamera nat bool | SetStreaming bool | Join nat | WorkerRelease nat
  | ThreadStart nat

datatype start_response = StartError string | StartMessage string

text \<open>
  \<open>if video_capture is not None: video_capture.release(); video_capture = None\<close>
\<close>

definition release_existing :: "session \<Rightarrow> session \<times> session_event list" where
  "release_existing s =
     (case video_capture s of
        None \<Rightarrow> (s, [])
      | Some h \<Rightarrow> (s\<lparr>video_capture := None, opened := opened s - {h}\<rparr>, [Release h]))"

text \<open>
  \<open>video_capture = cv2.VideoCapture(0)\<close>: a new object, opened or not as the camera
  allows (\<open>camera_ok\<close>).
\<close>

definition new_capture :: "bool \<Rightarrow> session \<Rightarrow> session \<times> session_event list" where
  "new_capture camera_ok s =
     (let h = next_id s
      in (s\<lparr>video_capture := Some h,
             opened := (if camera_ok then insert h (opened s) else opened s),
             next_id := Suc h\<rparr>,
          [OpenCamera h camera_ok]))"

text \<open>
  What the old worker has done when \<open>join(timeout=1.0)\<close> returns: it is still
  running; or it has left its loop and run its cleanup (lines 110 to 112), which
  releases whatever capture the global \<open>video_capture\<close> holds at that time; or an
  exception has ended it, without cleanup.
\<close>

datatype join_outcome = TimedOut | CleanedUp | Died

text \<open>
  The block under \<open>if detection_thread is not None and detection_thread.is_alive()\<close>:
  the flag is cleared and the thread joined.
\<close>

definition wait_for_existing :: "join_outcome \<Rightarrow> session \<Rightarrow> session \<times> session_event list" where
  "wait_for_existing outcome s =
     (case detection_thread s of
        None \<Rightarrow> (s, [])
      | Some t \<Rightarrow>
          if t \<in> alive s then
            (let s1 = s\<lparr>streaming := False\<rparr>
             in case outcome of
                  TimedOut \<Rightarrow> (s1, [SetStreaming False, Join t])
                | Died \<Rightarrow> (s1\<lparr>alive := alive s1 - {t}\<rparr>, [SetStreaming False, Join t])
                | CleanedUp \<Rightarrow>
                    (case video_capture s1 of
                       None \<Rightarrow> (s1\<lparr>alive := alive s1 - {t}\<rparr>, [SetStreaming False, Join t])
                     | Some h \<Rightarrow>
                         (s1\<lparr>alive := alive s1 - {t}, opened := opened s1 - {h}\<rparr>,
                          [SetStreaming False, Join t, WorkerRelease h])))
          else (s, []))"

definition new_thread :: "session \<Rightarrow> session \<times> session_event list" where
  "new_thread s =
     (let t = next_id s
      in (s\<lparr>detection_thread := Some t, alive := insert t (alive s), next_id := Suc t\<rparr>,
          [ThreadStart t]))"

definition start_stream ::
  "bool \<Rightarrow> join_outcome \<Rightarrow> session \<Rightarrow> start_response \<times> session \<times> session_event list"
where
  "start_stream camera_ok outcome s =
     (let (s1, e1) = release_existing s;
          (s2, e2) = new_capture camera_ok s1
      in if \<not> (case video_capture s2 of Some h \<Rightarrow> h \<in> opened s2 | None \<Rightarrow> False) then
           (StartError ''Could not open camera'', s2, e1 @ e2)
         else
           (let s3 = s2\<lparr>streaming := True\<rparr>;
                (s4, e4) = wait_for_existing outcome s3;
                (s5, e5) = new_thread s4
            in (StartMessage ''Streaming started'', s5,
                e1 @ e2 @ [SetStreaming True] @ e4 @ e5)))"

subsection \<open>The detection loop: one frame\<close>

text \<open>
  A floating-point value is a finite number, an infinity or not-a-number. The finite
  values are given by the rational they stand for; the model does not say which
  rationals a format has, so it covers every value of every format.
\<close>

datatype float = Finite rat | PlusInf | MinusInf | NaN

text \<open>
  The detector is a black box; what it returns for a frame is a list of results, each
  with a dictionary of class names and a list of boxes. The fields of a box are
  tensors of single-precision numbers.
\<close>

record box =
  conf :: float
  xyxy :: "float \<times> float \<times> float \<times> float"
  cls :: float

record result =
  names :: "int \<rightharpoonup> string"
  boxes :: "box list"

record accumulated_object =
  class_name :: string
  confidence :: float

record detection = accumulated_object +
  bbox :: "int list"

record detection_batch =
  objects :: "detection list"
  timestamp :: string
  frame_width :: int
  frame_height :: int












subsection \<open>JSON values and \<open>json.loads\<close>\<close>

text \<open>
  Python dictionaries, lists and scalars as they come out of \<open>json.loads\<close> and as the
  module builds them in dictionary literals. A dictionary keeps its keys in insertion
  order. A number with a fraction or an exponent is kept as its literal text, so that
  no floating-point value has to be computed.
\<close>

datatype json =
    JNull | JBool bool | JInt int | JFloat string | JStr string
  | JArr "json list" | JObj "(string \<times> json) list"

text \<open>\<open>d[k] = v\<close>: a key already present keeps its place and takes the new value.\<close>

fun dict_set :: "'k \<Rightarrow> 'v \<Rightarrow> ('k \<times> 'v) list \<Rightarrow> ('k \<times> 'v) list" where
  "dict_set k v [] = [(k, v)]"
| "dict_set k v ((k', v') # kvs) =
     (if k = k' then (k, v) # kvs else (k', v') # dict_set k v kvs)"

text \<open>
  \<open>json.loads\<close> is modelled by a scanner that cuts the text into tokens and a
  push-down recogniser over the tokens. It follows the decoder of the standard
  library in its default (strict) mode: white space is blank, tab, line feed and
  carriage return; strings are in double quotes with the escapes
  \<open>\" \\ \/ \b \f \n \r \t \uXXXX\<close> and no raw control character; numbers follow
  the JSON grammar; \<open>NaN\<close>, \<open>Infinity\<close> and \<open>-Infinity\<close> are accepted; a second
  occurrence of a key overrides the first; anything after the top-level value other
  than white space is an error. The interpreter's limits on nesting depth and on the
  number of digits of an integer are not modelled.
\<close>

datatype token = TLBrace | TRBrace | TLBracket | TRBracket | TColon | TComma | TScalar json

definition is_ws :: "char \<Rightarrow> bool" where
  "is_ws c = (c = CHR '' '' \<or> c = CHR 0x09 \<or> c = CHR 0x0A \<or> c = CHR 0x0D)"

definition is_digit :: "char \<Rightarrow> bool" where
  "is_digit c = (c \<in> set ''0123456789'')"

definition digit_val :: "char \<Rightarrow> int" where
  "digit_val c = int (of_char c) - 48"

definition decimal :: "string \<Rightarrow> int" where
  "decimal ds = foldl (\<lambda>n c. 10 * n + digit_val c) 0 ds"

text \<open>The four hexadecimal digits of a \<open>\uXXXX\<close> escape, and the UTF-8 bytes of a code point.\<close>

definition hex_val :: "char \<Rightarrow> nat option" where
  "hex_val c =
     map_of (zip ''0123456789abcdef'' [0 ..< 16] @ zip ''ABCDEF'' [10 ..< 16]) c"

fun hex4 :: "string \<Rightarrow> nat option" where
  "hex4 (a # b # c # d # rest) =
     (case (hex_val a, hex_val b, hex_val c, hex_val d) of
        (Some x, Some y, Some z, Some w) \<Rightarrow> Some (((x * 16 + y) * 16 + z) * 16 + w)
      | _ \<Rightarrow> None)"
| "hex4 _ = None"

definition utf8 :: "nat \<Rightarrow> string" where
  "utf8 n =
     (if n < 0x80 then [char_of n]
      else if n < 0x800 then [char_of (0xC0 + n div 64), char_of (0x80 + n mod 64)]
      else if n < 0x10000 then
        [char_of (0xE0 + n div 4096), char_of (0x80 + n div 64 mod 64), char_of (0x80 + n mod 64)]
      else
        [char_of (0xF0 + n div 262144), char_of (0x80 + n div 4096 mod 64),
         char_of (0x80 + n div 64 mod 64), char_of (0x80 + n mod 64)])"

text \<open>
  The text after \<open>\u\<close>: the bytes of the character and the number of input characters
  taken, four or, for a surrogate pair \<open>\uD8xx\uDCxx\<close>, ten.
\<close>

definition unicode_escape :: "string \<Rightarrow> (string \<times> nat) option" where
  "unicode_escape cs =
     (case hex4 cs of
        None \<Rightarrow> None
      | Some hi \<Rightarrow>
          (let low = (case drop 4 cs of
                        b # u # rest \<Rightarrow>
                          if b = CHR 0x5C \<and> u = CHR ''u'' then hex4 rest else None
                      | _ \<Rightarrow> None)
           in case low of
                None \<Rightarrow> Some (utf8 hi, 4)
              | Some lo \<Rightarrow>
                  if 0xD800 \<le> hi \<and> hi < 0xDC00 \<and> 0xDC00 \<le> lo \<and> lo < 0xE000
                  then Some (utf8 (0x10000 + (hi - 0xD800) * 1024 + (lo - 0xDC00)), 10)
                  else Some (utf8 hi, 4)))"

definition simple_escape :: "char \<Rightarrow> char option" where
  "simple_escape e =
     map_of [(CHR 0x22, CHR 0x22), (CHR 0x5C, CHR 0x5C), (CHR ''/'', CHR ''/''),
             (CHR ''b'', CHR 0x08), (CHR ''f'', CHR 0x0C), (CHR ''n'', CHR 0x0A),
             (CHR ''r'', CHR 0x0D), (CHR ''t'', CHR 0x09)] e"

text \<open>
  The characters after an opening quote, up to the closing one: the decoded string and
  the rest of the input, or \<open>None\<close> for an unterminated string, a bad escape or a raw
  control character.
\<close>

fun scanstring :: "string \<Rightarrow> string \<Rightarrow> (string \<times> string) option" where
  "scanstring acc [] = None"
| "scanstring acc (c # cs) =
     (if c = CHR 0x22 then Some (acc, cs)
      else if c = CHR 0x5C then
        (case cs of
           [] \<Rightarrow> None
         | e # cs' \<Rightarrow>
             if e = CHR ''u'' then
               (case unicode_escape cs' of
                  None \<Rightarrow> None
                | Some (bytes, k) \<Rightarrow> scanstring (acc @ bytes) (drop k cs'))
             else
               (case simple_escape e of
                  None \<Rightarrow> None
                | Some x \<Rightarrow> scanstring (acc @ [x]) cs'))
      else if (of_char c :: nat) < 0x20 then None
      else scanstring (acc @ [c]) cs)"

text \<open>
  A number is scanned as the longest run of digits, signs, dots and exponent letters,
  which then has to match \<open>-?(0|[1-9][0-9]*)(.[0-9]+)?([eE][-+]?[0-9]+)?\<close> as a whole.
  (The decoder matches the longest prefix of that shape instead; whenever it stops
  short of the run, the next character is one that no JSON text allows after a
  number, so both fail on the same texts.)
\<close>

definition is_numchar :: "char \<Rightarrow> bool" where
  "is_numchar c = (is_digit c \<or> c \<in> set ''+-.eE'')"

definition frac_part :: "string \<Rightarrow> (bool \<times> string) option" where
  "frac_part r =
     (case r of
        [] \<Rightarrow> Some (False, [])
      | c # r' \<Rightarrow>
          if c = CHR ''.'' then
            (if takeWhile is_digit r' = [] then None else Some (True, dropWhile is_digit r'))
          else Some (False, r))"

definition exp_part :: "string \<Rightarrow> (bool \<times> string) option" where
  "exp_part r =
     (case r of
        [] \<Rightarrow> Some (False, [])
      | c # r' \<Rightarrow>
          if c = CHR ''e'' \<or> c = CHR ''E'' then
            (let r'' = (case r' of
                          [] \<Rightarrow> []
                        | s # t \<Rightarrow> if s = CHR ''+'' \<or> s = CHR ''-'' then t else r')
             in if takeWhile is_digit r'' = [] then None
                else Some (True, dropWhile is_digit r''))
          else Some (False, r))"

definition number :: "string \<Rightarrow> json option" where
  "number lexeme =
     (let neg = (lexeme \<noteq> [] \<and> hd lexeme = CHR ''-'');
          r0 = (if neg then tl lexeme else lexeme);
          ip = takeWhile is_digit r0
      in if ip = [] \<or> (length ip > 1 \<and> hd ip = CHR ''0'') then None
         else
           (case frac_part (dropWhile is_digit r0) of
              None \<Rightarrow> None
            | Some (has_frac, r1) \<Rightarrow>
                (case exp_part r1 of
                   None \<Rightarrow> None
                 | Some (has_exp, r2) \<Rightarrow>
                     if r2 \<noteq> [] then None
                     else if has_frac \<or> has_exp then Some (JFloat lexeme)
                     else Some (JInt (if neg then - decimal ip else decimal ip)))))"

definition starts_with :: "string \<Rightarrow> string \<Rightarrow> bool" where
  "starts_with p s = (take (length p) s = p)"

definition emit :: "token \<Rightarrow> token list option \<Rightarrow> token list option" where
  "emit t r = (case r of None \<Rightarrow> None | Some ts \<Rightarrow> Some (t # ts))"

definition punct :: "char \<Rightarrow> token option" where
  "punct c =
     map_of [(CHR ''{'', TLBrace), (CHR ''}'', TRBrace), (CHR ''['', TLBracket),
             (CHR '']'', TRBracket), (CHR '':'', TColon), (CHR '','', TComma)] c"

definition keyword :: "string \<Rightarrow> (json \<times> nat) option" where
  "keyword s =
     (if starts_with ''null'' s then Some (JNull, 4)
      else if starts_with ''true'' s then Some (JBool True, 4)
      else if starts_with ''false'' s then Some (JBool False, 5)
      else if starts_with ''NaN'' s then Some (JFloat ''NaN'', 3)
      else if starts_with ''Infinity'' s then Some (JFloat ''Infinity'', 8)
      else if starts_with ''-Infinity'' s then Some (JFloat ''-Infinity'', 9)
      else None)"

function lex :: "string \<Rightarrow> token list option" where
  "lex [] = Some []"
| "lex (c # cs) =
     (if is_ws c then lex cs
      else
        (case punct c of
           Some t \<Rightarrow> emit t (lex cs)
         | None \<Rightarrow>
             (if c = CHR 0x22 then
                (case scanstring [] cs of
                   None \<Rightarrow> None
                 | Some (s, rest) \<Rightarrow> emit (TScalar (JStr s)) (lex rest))
              else
                (case keyword (c # cs) of
                   Some (v, k) \<Rightarrow> emit (TScalar v) (lex (drop (k - 1) cs))
                 | None \<Rightarrow>
                     (if is_digit c \<or> c = CHR ''-'' then
                        (case number (c # takeWhile is_numchar cs) of
                           None \<Rightarrow> None
                         | Some v \<Rightarrow> emit (TScalar v) (lex (dropWhile is_numchar cs)))
                      else None)))))"
  by pat_completeness auto

termination lex
proof -
  have len: "length rest \<le> length cs" if "scanstring acc cs = Some (s, rest)"
    for acc cs s rest
    using that
  proof (induction acc cs rule: scanstring.induct)
    case (1 acc)
    then show ?case by simp
  next
    case (2 acc c cs)
    show ?case
    proof (cases "c = CHR 0x22")
      case True
      with "2.prems" show ?thesis by simp
    next
      case nq: False
      show ?thesis
      proof (cases "c = CHR 0x5C")
        case bs: True
        show ?thesis
        proof (cases cs)
          case Nil
          with "2.prems" nq bs show ?thesis by simp
        next
          case (Cons e cs')
          show ?thesis
          proof (cases "e = CHR ''u''")
            case u: True
            with "2.prems" nq bs Cons obtain bytes k where
              ue: "unicode_escape cs' = Some (bytes, k)"
              and r: "scanstring (acc @ bytes) (drop k cs') = Some (s, rest)"
              by (auto split: option.splits)
            from "2.IH"(1)[OF nq bs Cons u ue refl r] have "length rest \<le> length (drop k cs')" .
            with Cons show ?thesis by simp
          next
            case nu: False
            with "2.prems" nq bs Cons obtain x where
              se: "simple_escape e = Some x"
              and r: "scanstring (acc @ [x]) cs' = Some (s, rest)"
              by (auto split: option.splits)
            from "2.IH"(2)[OF nq bs Cons nu se r] have "length rest \<le> length cs'" .
            with Cons show ?thesis by simp
          qed
        qed
      next
        case nbs: False
        show ?thesis
        proof (cases "(of_char c :: nat) < 0x20")
          case True
          with "2.prems" nq nbs show ?thesis by simp
        next
          case False
          with "2.prems" nq nbs have r: "scanstring (acc @ [c]) cs = Some (s, rest)" by simp
          from "2.IH"(3)[OF nq nbs False r] show ?thesis by simp
        qed
      qed
    qed
  qed
  show ?thesis
  proof (relation "measure length")
    fix c cs x2 s rest
    assume "scanstring [] cs = Some x2" "(s, rest) = x2"
    then show "(rest, c # cs) \<in> measure length"
      using len[of "[]" cs s rest] by simp
  qed (auto simp: length_dropWhile_le less_Suc_eq_le)
qed

text \<open>
  The recogniser keeps a stack of the containers that are open: an array with the
  elements read so far, an object waiting for a key or its end, or an object that has
  read a key and waits for the value.
\<close>

datatype frame =
    InArray "json list" | InObject "(string \<times> json) list"
  | InMember "(string \<times> json) list" string

datatype phase = WantValue | WantValueOrClose | WantKey | WantKeyOrClose | WantColon
  | WantCommaOrClose | Done json

text \<open>A finished value goes to the container on top of the stack, or is the result.\<close>

fun deliver :: "json \<Rightarrow> frame list \<Rightarrow> (phase \<times> frame list) option" where
  "deliver v [] = Some (Done v, [])"
| "deliver v (InArray xs # st) = Some (WantCommaOrClose, InArray (xs @ [v]) # st)"
| "deliver v (InMember kvs k # st) = Some (WantCommaOrClose, InObject (dict_set k v kvs) # st)"
| "deliver v (InObject kvs # st) = None"

fun want_value :: "bool \<Rightarrow> frame list \<Rightarrow> token \<Rightarrow> (phase \<times> frame list) option" where
  "want_value may_close st (TScalar v) = deliver v st"
| "want_value may_close st TLBracket = Some (WantValueOrClose, InArray [] # st)"
| "want_value may_close st TLBrace = Some (WantKeyOrClose, InObject [] # st)"
| "want_value True (InArray xs # st) TRBracket = deliver (JArr xs) st"
| "want_value may_close st t = None"

fun want_key :: "bool \<Rightarrow> frame list \<Rightarrow> token \<Rightarrow> (phase \<times> frame list) option" where
  "want_key may_close (InObject kvs # st) (TScalar (JStr k)) = Some (WantColon, InMember kvs k # st)"
| "want_key True (InObject kvs # st) TRBrace = deliver (JObj kvs) st"
| "want_key may_close st t = None"

fun want_comma_or_close :: "frame list \<Rightarrow> token \<Rightarrow> (phase \<times> frame list) option" where
  "want_comma_or_close (InArray xs # st) TComma = Some (WantValue, InArray xs # st)"
| "want_comma_or_close (InObject kvs # st) TComma = Some (WantKey, InObject kvs # st)"
| "want_comma_or_close (InArray xs # st) TRBracket = deliver (JArr xs) st"
| "want_comma_or_close (InObject kvs # st) TRBrace = deliver (JObj kvs) st"
| "want_comma_or_close st t = None"

fun parse_step :: "phase \<times> frame list \<Rightarrow> token \<Rightarrow> (phase \<times> frame list) option" where
  "parse_step (WantValue, st) t = want_value False st t"
| "parse_step (WantValueOrClose, st) t = want_value True st t"
| "parse_step (WantKey, st) t = want_key False st t"
| "parse_step (WantKeyOrClose, st) t = want_key True st t"
| "parse_step (WantColon, st) t = (if t = TColon then Some (WantValue, st) else None)"
| "parse_step (WantCommaOrClose, st) t = want_comma_or_close st t"
| "parse_step (Done v, st) t = None"

fun parse_tokens :: "phase \<times> frame list \<Rightarrow> token list \<Rightarrow> json option" where
  "parse_tokens (Done v, []) [] = Some v"
| "parse_tokens s [] = None"
| "parse_tokens s (t # ts) =
     (case parse_step s t of None \<Rightarrow> None | Some s' \<Rightarrow> parse_tokens s' ts)"

text \<open>\<open>json.loads(s)\<close>: the value, or JSONDecodeError.\<close>

definition json_loads :: "string \<Rightarrow> py_error + json" where
  "json_loads s =
     (case lex s of
        None \<Rightarrow> Inl JSONDecodeError
      | Some ts \<Rightarrow>
          (case parse_tokens (WantValue, []) ts of
             None \<Rightarrow> Inl JSONDecodeError
           | Some v \<Rightarrow> Inr v))"

subsection \<open>Strings\<close>

text \<open>
  \<open>str.lower()\<close> follows the Unicode character database, which is not part of the
  program; the analysis takes it from the environment (see \<open>env\<close> below). On ASCII
  text it maps the letters A to Z to a to z and leaves every other character as it
  is; \<open>ascii_lower\<close> is that function, used in the examples, which are ASCII.
\<close>

definition lower_char :: "char \<Rightarrow> char" where
  "lower_char c =
     (case map_of (zip ''ABCDEFGHIJKLMNOPQRSTUVWXYZ'' ''abcdefghijklmnopqrstuvwxyz'') c of
        None \<Rightarrow> c
      | Some l \<Rightarrow> l)"

definition ascii_lower :: "string \<Rightarrow> string" where
  "ascii_lower s = map lower_char s"

text \<open>
  \<open>sub in s\<close> for strings: \<open>sub\<close> occurs in \<open>s\<close> as a contiguous piece. (For an ASCII
  \<open>sub\<close> this is the same on the bytes of UTF-8 as on the characters.)
\<close>

fun py_in :: "string \<Rightarrow> string \<Rightarrow> bool" where
  "py_in sub [] = (sub = [])"
| "py_in sub (c # cs) = (starts_with sub (c # cs) \<or> py_in sub cs)"

text \<open>\<open>sep.join(xs)\<close>.\<close>

fun join :: "string \<Rightarrow> string list \<Rightarrow> string" where
  "join sep [] = []"
| "join sep [x] = x"
| "join sep (x # y # ys) = x @ sep @ join sep (y # ys)"

text \<open>The decimal digits of a length, as an f-string prints it.\<close>

fun str_nat :: "nat \<Rightarrow> string" where
  "str_nat n =
     (if n < 10 then [''0123456789'' ! n]
      else str_nat (n div 10) @ [''0123456789'' ! (n mod 10)])"

subsection \<open>Threat analysis\<close>

text \<open>The prompt, an f-string with \<open>objects_text\<close> spliced in.\<close>

definition prompt_text :: "string \<Rightarrow> string" where
  "prompt_text objects_text =
     join [CHR 0x0A]
       ['''',
        ''    Analyze the following objects detected in a security video feed and provide a comprehensive threat assessment:'',
        '''',
        ''    Detected Objects: '' @ objects_text,
        '''',
        ''    Please provide a detailed analysis in the following JSON format:'',
        ''    {'',
        ''        \"threat_level\": \"high/medium/low\",'',
        ''        \"threat_percentage\": <number 0-100>,'',
        ''        \"risk_breakdown\": {'',
        ''            \"high\": <percentage>,'',
        ''            \"medium\": <percentage>, '',
        ''            \"low\": <percentage>'',
        ''        },'',
        ''        \"flagged_content\": \"<explanation of concerning objects>\",'',
        ''        \"detected_keywords\": [\"<list of concerning object names>\"],'',
        ''        \"summary\": \"<overall assessment summary>\",'',
        ''        \"recommendations\": [\"<list of recommended actions>\"]'',
        ''    }'',
        '''',
        ''    Focus on security threats, weapons, dangerous objects, and potential risks. Be thorough in your analysis.'',
        ''    '']"

text \<open>
  The dictionary that \<open>analyze_threat_with_groq\<close> returns on its own account, with
  its seven keys in the order of the source.
\<close>

definition report ::
  "string \<Rightarrow> int \<Rightarrow> json \<Rightarrow> string \<Rightarrow> string list \<Rightarrow> string \<Rightarrow> string list \<Rightarrow> json"
where
  "report threat_level threat_percentage risk_breakdown flagged_content detected_keywords
      summary recommendations =
     JObj [(''threat_level'', JStr threat_level),
           (''threat_percentage'', JInt threat_percentage),
           (''risk_breakdown'', risk_breakdown),
           (''flagged_content'', JStr flagged_content),
           (''detected_keywords'', JArr (map JStr detected_keywords)),
           (''summary'', JStr summary),
           (''recommendations'', JArr (map JStr recommendations))]"

definition breakdown :: "int \<Rightarrow> int \<Rightarrow> int \<Rightarrow> json" where
  "breakdown h m l = JObj [(''high'', JInt h), (''medium'', JInt m), (''low'', JInt l)]"

text \<open>The report for an empty accumulation (lines 117 to 125).\<close>

definition no_objects_report :: json where
  "no_objects_report =
     report ''low'' 0 (breakdown 0 0 100) ''No objects detected during the session.'' []
       ''No threats detected in the video analysis session.''
       [''Continue regular monitoring'', ''No immediate action required'']"

text \<open>
  The \<open>except\<close> branch (lines 203 to 240): the class names that contain one of four
  words once \<open>.lower()\<close> is applied, and the report computed from their number.
  \<open>lower\<close> is \<open>str.lower\<close>.
\<close>

definition is_dangerous :: "(string \<Rightarrow> string) \<Rightarrow> string \<Rightarrow> bool" where
  "is_dangerous lower name =
     (py_in ''weapon'' (lower name) \<or> py_in ''knife'' (lower name)
      \<or> py_in ''gun'' (lower name) \<or> py_in ''scissors'' (lower name))"

definition fallback_report :: "(string \<Rightarrow> string) \<Rightarrow> accumulated_object list \<Rightarrow> json" where
  "fallback_report lower accumulated_objects =
     (let detected_keywords =
            map class_name
              (filter (\<lambda>obj. is_dangerous lower (class_name obj)) accumulated_objects)
      in if detected_keywords \<noteq> [] then
           (let threat_percentage = min 100 (int (length detected_keywords) * 20)
            in report ''high'' threat_percentage
                 (breakdown threat_percentage (100 - threat_percentage) 0)
                 (''Dangerous objects detected: '' @ join '', '' detected_keywords @ ''.'')
                 detected_keywords
                 (''High-risk situation detected with '' @ str_nat (length detected_keywords)
                    @ '' dangerous objects.'')
                 [''Issue immediate alert: sharp weapon detected'',
                  ''Alert local law enforcement for potential threat'',
                  ''Discourage any approach '' @ [CHR 0xE2, CHR 0x80, CHR 0x94]
                    @ '' object could be concealed or used rapidly''])
         else
           report ''low'' 0 (breakdown 0 0 100) ''No dangerous objects detected.''
             detected_keywords ''Low-risk situation based on detected objects.''
             [''Continue monitoring'', ''No immediate action required''])"

text \<open>
  The outside world of the function. For the \<open>try\<close> block: the environment variable,
  whether \<open>import requests\<close> succeeds, and what \<open>requests.post\<close> does with a request.
  The call is made without a timeout: it raises, or it returns a response, or the
  service never answers and the call never returns. Of a response the function reads
  the status code and \<open>response.json()\<close>, the decoding of the body by the \<open>requests\<close>
  library, which yields a value or raises. Two functions of the Python library are
  taken from the environment as well: \<open>format_2f\<close>, the \<open>:.2f\<close> formatting of a
  float, which only shapes the prompt, and \<open>str_lower\<close>, which is \<open>str.lower\<close>.
\<close>

record request =
  url :: string
  headers :: "(string \<times> string) list"
  payload :: json

record response =
  status_code :: int
  response_json :: "py_error + json"

datatype post_outcome = PostRaises | PostReturns response | PostHangs

record env =
  GROQ_API_KEY :: "string option"
  requests_installed :: bool
  requests_post :: "request \<Rightarrow> post_outcome"
  format_2f :: "float \<Rightarrow> string"
  str_lower :: "string \<Rightarrow> string"

definition make_request :: "string \<Rightarrow> string \<Rightarrow> request" where
  "make_request groq_api_key prompt =
     \<lparr>url = ''https://api.groq.com/openai/v1/chat/completions'',
      headers = [(''Authorization'', ''Bearer '' @ groq_api_key),
                 (''Content-Type'', ''application/json'')],
      payload =
        JObj [(''messages'',
               JArr [JObj [(''role'', JStr ''system''),
                           (''content'', JStr ''You are a security threat analysis expert. Analyze detected objects and provide comprehensive threat assessments.'')],
                     JObj [(''role'', JStr ''user''), (''content'', JStr prompt)]]),
              (''model'', JStr ''mixtral-8x7b-32768''),
              (''temperature'', JFloat ''0.1''),
              (''max_tokens'', JInt 1000)]\<rparr>"

text \<open>
  Subscripts on a decoded value: \<open>v[key]\<close> with a string key and \<open>v[0]\<close>. A dictionary
  of decoded JSON has string keys only, so \<open>d[0]\<close> is a KeyError; \<open>s[0]\<close> on a string
  is its first character, on which the next string subscript is a TypeError.
\<close>

definition getitem :: "json \<Rightarrow> string \<Rightarrow> py_error + json" where
  "getitem v key =
     (case v of
        JObj kvs \<Rightarrow> (case map_of kvs key of None \<Rightarrow> Inl KeyError | Some x \<Rightarrow> Inr x)
      | _ \<Rightarrow> Inl TypeError)"

definition getitem0 :: "json \<Rightarrow> py_error + json" where
  "getitem0 v =
     (case v of
        JArr xs \<Rightarrow> (case xs of [] \<Rightarrow> Inl IndexError | x # _ \<Rightarrow> Inr x)
      | JStr s \<Rightarrow> (if s = [] then Inl IndexError else Inr (JStr (take 1 s)))
      | JObj kvs \<Rightarrow> Inl KeyError
      | _ \<Rightarrow> Inl TypeError)"

text \<open>\<open>response_data["choices"][0]["message"]["content"]\<close>\<close>

definition message_content :: "json \<Rightarrow> py_error + json" where
  "message_content response_data =
     (case getitem response_data ''choices'' of
        Inl e \<Rightarrow> Inl e
      | Inr choices \<Rightarrow>
          (case getitem0 choices of
             Inl e \<Rightarrow> Inl e
           | Inr choice \<Rightarrow>
               (case getitem choice ''message'' of
                  Inl e \<Rightarrow> Inl e
                | Inr message \<Rightarrow> getitem message ''content'')))"

text \<open>
  \<open>re.search(r'\{.*\}', s, re.DOTALL)\<close>, the text matched or \<open>None\<close>. The match
  starts at the first opening brace; the star is greedy and the dot matches every
  character, so it ends at the last closing brace after it.
\<close>

definition re_search :: "string \<Rightarrow> string option" where
  "re_search s =
     (case dropWhile (\<lambda>c. c \<noteq> CHR ''{'') s of
        [] \<Rightarrow> None
      | c # after_open \<Rightarrow>
          (case dropWhile (\<lambda>c. c \<noteq> CHR ''}'') (rev after_open) of
             [] \<Rightarrow> None
           | d # before_close \<Rightarrow> Some (c # rev before_close @ [d])))"

text \<open>
  Lines 193 to 199. \<open>re.search\<close> raises TypeError on a value that is not a string.
\<close>

definition extract_json :: "json \<Rightarrow> py_error + json" where
  "extract_json analysis_text =
     (case analysis_text of
        JStr s \<Rightarrow>
          (case re_search s of
             Some json_match \<Rightarrow> json_loads json_match
           | None \<Rightarrow> Inl ValueError)
      | _ \<Rightarrow> Inl TypeError)"

text \<open>Lines 188 to 201, on the response that \<open>requests.post\<close> returned.\<close>

definition on_response :: "response \<Rightarrow> py_error + json" where
  "on_response r =
     (if status_code r = 200 then
        (case response_json r of
           Inl e \<Rightarrow> Inl e
         | Inr response_data \<Rightarrow>
             (case message_content response_data of
                Inl e \<Rightarrow> Inl e
              | Inr analysis_text \<Rightarrow> extract_json analysis_text))
      else Inl ValueError)"

text \<open>
  The \<open>try\<close> block (lines 158 to 201): its value, or the exception it raises, and the
  requests posted; \<open>None\<close> when the call to the service never returns.
\<close>

definition groq_analysis :: "env \<Rightarrow> string \<Rightarrow> ((py_error + json) \<times> request list) option" where
  "groq_analysis env prompt =
     (case GROQ_API_KEY env of
        None \<Rightarrow> Some (Inl ValueError, [])
      | Some groq_api_key \<Rightarrow>
          if groq_api_key = [] then Some (Inl ValueError, [])
          else if \<not> requests_installed env then Some (Inl ImportError, [])
          else
            (let req = make_request groq_api_key prompt
             in case requests_post env req of
                  PostRaises \<Rightarrow> Some (Inl RequestException, [req])
                | PostReturns r \<Rightarrow> Some (on_response r, [req])
                | PostHangs \<Rightarrow> None))"

text \<open>Lines 128 to 156.\<close>

definition make_prompt :: "env \<Rightarrow> accumulated_object list \<Rightarrow> string" where
  "make_prompt env accumulated_objects =
     (let object_list =
            map (\<lambda>obj. class_name obj @ '' (confidence: '' @ format_2f env (confidence obj) @ '')'')
              accumulated_objects;
          objects_text = join '', '' object_list
      in prompt_text objects_text)"

text \<open>
  The whole function. \<open>accumulated_objects\<close> is \<open>Optional[list]\<close>; \<open>not
  accumulated_objects\<close> holds for \<open>None\<close> and for the empty list. \<open>except Exception\<close>
  catches whatever the \<open>try\<close> block raised (the message printed is left out). The
  result is the report and the requests posted, or \<open>None\<close> when the function never
  returns.
\<close>

definition analyze_threat_with_groq ::
  "env \<Rightarrow> accumulated_object list option \<Rightarrow> (json \<times> request list) option"
where
  "analyze_threat_with_groq env accumulated_objects =
     (case accumulated_objects of
        None \<Rightarrow> Some (no_objects_report, [])
      | Some objs \<Rightarrow>
          if objs = [] then Some (no_objects_report, [])
          else
            (case groq_analysis env (make_prompt env objs) of
               None \<Rightarrow> None
             | Some (Inr analysis_json, calls) \<Rightarrow> Some (analysis_json, calls)
             | Some (Inl e, calls) \<Rightarrow> Some (fallback_report (str_lower env) objs, calls)))"

subsection \<open>Stop\<close>

text \<open>
  \<open>StopStreamRequest\<close> has one field, \<open>accumulated_objects: Optional[list] = []\<close>: a
  body without the field gives the default, a \<open>null\<close> gives \<open>None\<close>. The elements are
  taken to be dictionaries with a string \<open>class_name\<close> and a number \<open>confidence\<close>.
\<close>

datatype body_field = Omitted | Null | Objects "accumulated_object list"

record stop_stream_request =
  accumulated_objects :: "accumulated_object list option"

definition StopStreamRequest :: "body_field \<Rightarrow> stop_stream_request" where
  "StopStreamRequest field =
     \<lparr>accumulated_objects =
        (case field of Omitted \<Rightarrow> Some [] | Null \<Rightarrow> None | Objects xs \<Rightarrow> Some xs)\<rparr>"

text \<open>
  \<open>stop_stream\<close>: the session afterwards, and the response with the requests posted,
  or \<open>None\<close> when the analysis never returns.
\<close>

definition stop_stream ::
  "env \<Rightarrow> stop_stream_request \<Rightarrow> session \<Rightarrow> session \<times> (json \<times> request list) option"
where
  "stop_stream env request s =
     (let s' = s\<lparr>streaming := False\<rparr>
      in case analyze_threat_with_groq env (accumulated_objects request) of
           None \<Rightarrow> (s', None)
         | Some (analysis, calls) \<Rightarrow>
             (s', Some (JObj [(''message'', JStr ''Streaming stopped''), (''analysis'', analysis)],
                        calls)))"

text \<open>
  A threat report as the data model describes it: the seven keys are there, the level
  is one of three words, the percentage is an integer from 0 to 100, the breakdown
  has three integers that add up to 100, the texts are strings and the two lists are
  lists of strings.
\<close>

definition report_keys :: "string list" where
  "report_keys =
     [''threat_level'', ''threat_percentage'', ''risk_breakdown'', ''flagged_content'',
      ''detected_keywords'', ''summary'', ''recommendations'']"

definition has_report_keys :: "json \<Rightarrow> bool" where
  "has_report_keys v = list_all (\<lambda>k. case getitem v k of Inl e \<Rightarrow> False | Inr x \<Rightarrow> True) report_keys"

fun is_level :: "py_error + json \<Rightarrow> bool" where
  "is_level (Inr (JStr s)) = (s = ''high'' \<or> s = ''medium'' \<or> s = ''low'')"
| "is_level _ = False"

fun is_percentage :: "py_error + json \<Rightarrow> bool" where
  "is_percentage (Inr (JInt p)) = (0 \<le> p \<and> p \<le> 100)"
| "is_percentage _ = False"

fun is_breakdown :: "py_error + json \<Rightarrow> bool" where
  "is_breakdown (Inr b) =
     (case (getitem b ''high'', getitem b ''medium'', getitem b ''low'') of
        (Inr (JInt h), Inr (JInt m), Inr (JInt l)) \<Rightarrow> h + m + l = 100
      | _ \<Rightarrow> False)"
| "is_breakdown _ = False"

fun is_string :: "py_error + json \<Rightarrow> bool" where
  "is_string (Inr (JStr s)) = True"
| "is_string _ = False"

fun is_string_list :: "py_error + json \<Rightarrow> bool" where
  "is_string_list (Inr (JArr xs)) = list_all (\<lambda>x. is_string (Inr x)) xs"
| "is_string_list _ = False"

definition valid_report :: "json \<Rightarrow> bool" where
  "valid_report v =
     (has_report_keys v
      \<and> is_level (getitem v ''threat_level'')
      \<and> is_percentage (getitem v ''threat_percentage'')
      \<and> is_breakdown (getitem v ''risk_breakdown'')
      \<and> is_string (getitem v ''flagged_content'')
      \<and> is_string_list (getitem v ''detected_keywords'')
      \<and> is_string (getitem v ''summary'')
      \<and> is_string_list (getitem v ''recommendations''))"

text \<open>
  Two stand-ins for the outside world, used in the examples: a service that answers
  every request with the same response, and a formatter that prints the same text for
  every confidence.
\<close>

definition reply_with :: "response \<Rightarrow> request \<Rightarrow> post_outcome" where
  "reply_with r req = PostReturns r"

definition fixed_format :: "string \<Rightarrow> float \<Rightarrow> string" where
  "fixed_format s c = s"

section \<open>Properties\<close>

subsection \<open>Broadcast\<close>

text \<open>
  When nothing happens in the other thread, one broadcast tries to send to every
  connected socket in turn, removes afterwards the sockets whose send raised, and
  raises nothing.
\<close>

lemma send_loop_undisturbed:
  "send_loop ok [] i live d =
     (live, d @ filter (\<lambda>ws. \<not> ok ws) (drop i live), [],
      map (\<lambda>ws. SendText ws (ok ws)) (drop i live))"
proof (induction "length live - i" arbitrary: i d)
  case 0
  then have "\<not> i < length live" by simp
  then show ?case by (subst send_loop.simps) (simp add: endpoint_runs_def Let_def)
next
  case (Suc n)
  then have lt: "i < length live" and n: "n = length live - Suc i" by simp_all
  from lt have dr: "drop i live = live ! i # drop (Suc i) live"
    by (simp add: Cons_nth_drop_Suc)
  show ?case
    by (subst send_loop.simps)
       (simp add: endpoint_runs_def lt Suc.hyps(1)[OF n] dr list_append_def Let_def)
qed

lemma remove_loop_keep:
  "\<forall>d \<in> set ds. d \<noteq> x \<Longrightarrow> remove_loop [] ds xs = (None, ys, evs) \<Longrightarrow>
     remove_loop [] ds (x # xs) = (None, x # ys, evs)"
proof (induction ds arbitrary: xs evs)
  case Nil
  then show ?case by simp
next
  case (Cons d ds)
  from Cons.prems(2) obtain xs' evs' where
    r: "list_remove d xs = Inr xs'" and l: "remove_loop [] ds xs' = (None, ys, evs')"
    and e: "evs = Remove d # evs'"
    by (auto simp: endpoint_runs_def split: sum.splits prod.splits)
  from r have "list_remove d (x # xs) = Inr (x # xs')"
    using Cons.prems(1) by (auto simp: list_remove_def split: if_splits)
  moreover from Cons.prems(1) have "\<forall>d \<in> set ds. d \<noteq> x" by simp
  from Cons.IH[OF this l] have "remove_loop [] ds (x # xs') = (None, x # ys, evs')" .
  ultimately show ?case using e by (simp add: endpoint_runs_def)
qed

lemma remove_loop_undisturbed:
  "remove_loop [] (filter (\<lambda>ws. \<not> ok ws) subs) subs =
     (None, filter ok subs, map Remove (filter (\<lambda>ws. \<not> ok ws) subs))"
proof (induction subs)
  case Nil
  then show ?case by simp
next
  case (Cons x xs)
  show ?case
  proof (cases "ok x")
    case True
    then have "\<forall>d \<in> set (filter (\<lambda>ws. \<not> ok ws) xs). d \<noteq> x" by auto
    from remove_loop_keep[OF this Cons.IH] show ?thesis using True by simp
  next
    case False
    then show ?thesis using Cons.IH by (simp add: list_remove_def endpoint_runs_def)
  qed
qed

lemma broadcast_undisturbed:
  "broadcast_detection_data ok [] subs =
     (None, filter ok subs,
      map (\<lambda>ws. SendText ws (ok ws)) subs @ map Remove (filter (\<lambda>ws. \<not> ok ws) subs))"
  by (cases "subs = []")
     (simp_all add: broadcast_detection_data_def send_loop_undisturbed remove_loop_undisturbed)

text \<open>
  C7. Two sockets are connected and the send to the first raises because its client
  has gone. The endpoint of that client then removes the socket while the broadcast is
  still in its first loop: the loop ends without a send to the second socket, and the
  removal of the first socket raises ValueError out of the broadcast.
\<close>

theorem broadcast_disturbed_by_disconnect:
  "broadcast_detection_data (\<lambda>ws. ws \<noteq> 1) [[], [Disconnects 1]] [1, 2]
     = (Some ValueError, [2], [SendText 1 False])"
  by code_simp

text \<open>
  C8. A socket that a broadcast has already removed is not in the list when its
  disconnect handler runs, and \<open>remove\<close> then raises ValueError instead of doing
  nothing; the same happens on a second disconnect of the same socket.
\<close>

theorem disconnect_after_prune_raises:
  "broadcast_detection_data (\<lambda>ws. ws \<noteq> 1) [] [1, 2]
     = (None, [2], [SendText 1 False, SendText 2 True, Remove 1])
   \<and> websocket_disconnect 1 [2] = Inl ValueError
   \<and> websocket_disconnect 1 [1, 2] = Inr [2]"
  by (simp add: broadcast_undisturbed websocket_disconnect_def list_remove_def)

subsection \<open>Start\<close>

text \<open>
  C6. When the camera cannot be opened, and the only capture that may be open beforehand
  is the one the session holds, \<open>start_stream\<close> returns the error response, leaves the
  streaming flag and the worker thread as they were (so an idle session stays idle),
  starts no thread, and no capture is open afterwards.
\<close>

theorem start_stream_camera_unavailable:
  assumes "opened s \<subseteq> set_option (video_capture s)"
  shows "\<exists>s' evs.
     start_stream False outcome s = (StartError ''Could not open camera'', s', evs)
     \<and> streaming s' = streaming s
     \<and> (\<not> streaming s \<longrightarrow> \<not> streaming s')
     \<and> detection_thread s' = detection_thread s
     \<and> alive s' = alive s
     \<and> (\<forall>t. ThreadStart t \<notin> set evs)
     \<and> opened s' = {}"
proof (cases "video_capture s")
  case None
  with assms have "opened s = {}" by simp
  with None show ?thesis
    by (simp add: start_stream_def release_existing_def new_capture_def Let_def)
next
  case (Some h)
  with assms have "opened s \<subseteq> {h}" by simp
  then have "next_id s \<in> opened s \<Longrightarrow> next_id s = h" and "opened s - {h} = {}"
    by auto
  with Some show ?thesis
    by (auto simp: start_stream_def release_existing_def new_capture_def Let_def)
qed

theorem start_stream_camera_unavailable_witness:
  "opened \<lparr>video_capture = Some 0, streaming = False, detection_thread = None,
           opened = {0}, alive = {}, next_id = 1\<rparr>
     \<subseteq> set_option (video_capture \<lparr>video_capture = Some 0, streaming = False,
           detection_thread = None, opened = {0}, alive = {}, next_id = 1\<rparr>)
   \<and> start_stream False TimedOut
       \<lparr>video_capture = Some 0, streaming = False, detection_thread = None,
        opened = {0}, alive = {}, next_id = 1\<rparr>
     = (StartError ''Could not open camera'',
        \<lparr>video_capture = Some 1, streaming = False, detection_thread = None,
         opened = {}, alive = {}, next_id = 2\<rparr>,
        [Release 0, OpenCamera 1 False])"
  using start_stream_camera_unavailable
    [of "\<lparr>video_capture = Some 0, streaming = False, detection_thread = None,
          opened = {0}, alive = {}, next_id = 1\<rparr>" TimedOut]
  by (simp add: start_stream_def release_existing_def new_capture_def Let_def)

text \<open>
  C5. A start while a worker is alive: the new capture is opened before the old
  worker is told to stop and joined, and the flag cleared for the old worker is
  never set again, so the call reports success with the streaming flag off. The old
  worker, leaving its loop, releases the capture just opened.
\<close>

theorem start_stream_while_running:
  "start_stream True CleanedUp
     \<lparr>video_capture = Some 0, streaming = True, detection_thread = Some 1,
      opened = {0}, alive = {1}, next_id = 2\<rparr>
   = (StartMessage ''Streaming started'',
      \<lparr>video_capture = Some 2, streaming = False, detection_thread = Some 3,
       opened = {}, alive = {3}, next_id = 4\<rparr>,
      [Release 0, OpenCamera 2 True, SetStreaming True, SetStreaming False, Join 1,
       WorkerRelease 2, ThreadStart 3])
   \<and> start_stream True TimedOut
     \<lparr>video_capture = Some 0, streaming = True, detection_thread = Some 1,
      opened = {0}, alive = {1}, next_id = 2\<rparr>
   = (StartMessage ''Streaming started'',
      \<lparr>video_capture = Some 2, streaming = False, detection_thread = Some 3,
       opened = {2}, alive = {1, 3}, next_id = 4\<rparr>,
      [Release 0, OpenCamera 2 True, SetStreaming True, SetStreaming False, Join 1,
       ThreadStart 3])"
  by (simp add: start_stream_def release_existing_def new_capture_def
      wait_for_existing_def new_thread_def Let_def insert_commute)

subsection \<open>Confidence threshold\<close>









subsection \<open>Threat analysis\<close>

lemma starts_with_prefix: "starts_with p s = prefix p s"
  unfolding starts_with_def
proof
  assume "take (length p) s = p"
  then show "prefix p s" by (metis take_is_prefix)
next
  assume "prefix p s"
  then show "take (length p) s = p" by (auto simp: prefix_def)
qed

lemma py_in_sublist: "py_in sub s = sublist sub s"
  by (induction s) (simp_all add: sublist_Cons_right starts_with_prefix)

lemma is_dangerous_sublist:
  "is_dangerous lower name \<longleftrightarrow>
     (\<exists>kw \<in> set [''weapon'', ''knife'', ''gun'', ''scissors'']. sublist kw (lower name))"
  by (simp add: is_dangerous_def py_in_sublist)

lemma getitem_report:
  "getitem (report lv tp rb fc dk su rc) ''threat_level'' = Inr (JStr lv)"
  "getitem (report lv tp rb fc dk su rc) ''threat_percentage'' = Inr (JInt tp)"
  "getitem (report lv tp rb fc dk su rc) ''risk_breakdown'' = Inr rb"
  "getitem (report lv tp rb fc dk su rc) ''flagged_content'' = Inr (JStr fc)"
  "getitem (report lv tp rb fc dk su rc) ''detected_keywords'' = Inr (JArr (map JStr dk))"
  "getitem (report lv tp rb fc dk su rc) ''summary'' = Inr (JStr su)"
  "getitem (report lv tp rb fc dk su rc) ''recommendations'' = Inr (JArr (map JStr rc))"
  by (simp_all add: getitem_def report_def)

lemma has_report_keys_report: "has_report_keys (report lv tp rb fc dk su rc)"
  by (simp add: has_report_keys_def report_keys_def getitem_report)

lemma is_string_list_strings: "is_string_list (Inr (JArr (map JStr xs)))"
  by (induction xs) simp_all

lemma is_breakdown_breakdown: "is_breakdown (Inr (breakdown h m l)) = (h + m + l = 100)"
  by (simp add: breakdown_def getitem_def)

lemma valid_report_report:
  assumes "lv = ''high'' \<or> lv = ''medium'' \<or> lv = ''low''" and "0 \<le> tp" and "tp \<le> 100"
    and "h + m + l = 100"
  shows "valid_report (report lv tp (breakdown h m l) fc dk su rc)"
  using assms
  by (simp add: valid_report_def has_report_keys_report getitem_report is_string_list_strings
      is_breakdown_breakdown del: is_breakdown.simps is_string_list.simps)

lemma valid_report_no_objects: "valid_report no_objects_report"
  unfolding no_objects_report_def by (rule valid_report_report) simp_all

lemma valid_report_fallback: "valid_report (fallback_report lower objs)"
proof -
  let ?n = "int (length (map class_name (filter (\<lambda>obj. is_dangerous lower (class_name obj)) objs)))"
  have "valid_report (report ''high'' (min 100 (?n * 20))
      (breakdown (min 100 (?n * 20)) (100 - min 100 (?n * 20)) 0) fc dk su rc)" for fc dk su rc
    by (rule valid_report_report) simp_all
  moreover have "valid_report (report ''low'' 0 (breakdown 0 0 100) fc dk su rc)" for fc dk su rc
    by (rule valid_report_report) simp_all
  ultimately show ?thesis by (simp add: fallback_report_def Let_def)
qed

lemma no_objects_fields:
  "getitem no_objects_report ''threat_level'' = Inr (JStr ''low'')"
  "getitem no_objects_report ''threat_percentage'' = Inr (JInt 0)"
  "getitem no_objects_report ''risk_breakdown''
     = Inr (JObj [(''high'', JInt 0), (''medium'', JInt 0), (''low'', JInt 100)])"
  by (simp_all add: no_objects_report_def getitem_report breakdown_def)

lemma groq_analysis_calls: "groq_analysis env p = Some (r, calls) \<Longrightarrow> length calls \<le> 1"
  by (auto simp: groq_analysis_def Let_def split: option.splits post_outcome.splits if_splits)

lemma groq_analysis_returns:
  "\<forall>req. requests_post env req \<noteq> PostHangs \<Longrightarrow> \<exists>r calls. groq_analysis env p = Some (r, calls)"
  by (auto simp: groq_analysis_def Let_def split: option.splits post_outcome.splits)

lemma on_response_Inr:
  "on_response r = Inr j \<longleftrightarrow>
     (\<exists>response_data t m. status_code r = 200 \<and> response_json r = Inr response_data
        \<and> message_content response_data = Inr (JStr t) \<and> re_search t = Some m
        \<and> json_loads m = Inr j)"
  by (auto simp: on_response_def extract_json_def split: sum.splits json.splits option.splits)

lemma groq_analysis_Inr:
  "groq_analysis env p = Some (Inr j, calls) \<longleftrightarrow>
     (\<exists>key r. GROQ_API_KEY env = Some key \<and> key \<noteq> [] \<and> requests_installed env
        \<and> requests_post env (make_request key p) = PostReturns r
        \<and> on_response r = Inr j \<and> calls = [make_request key p])"
  by (auto simp: groq_analysis_def Let_def split: option.splits post_outcome.splits)

lemma analyze_nonempty:
  "objs \<noteq> [] \<Longrightarrow>
   analyze_threat_with_groq env (Some objs) =
     (case groq_analysis env (make_prompt env objs) of
        None \<Rightarrow> None
      | Some (Inr j, calls) \<Rightarrow> Some (j, calls)
      | Some (Inl e, calls) \<Rightarrow> Some (fallback_report (str_lower env) objs, calls))"
  by (simp add: analyze_threat_with_groq_def)

lemma re_search_Some:
  assumes "re_search s = Some m"
  shows "\<exists>pre mid post. s = pre @ m @ post \<and> m = CHR ''{'' # mid @ [CHR ''}'']
           \<and> CHR ''{'' \<notin> set pre \<and> CHR ''}'' \<notin> set post"
proof -
  let ?pre = "takeWhile (\<lambda>c. c \<noteq> CHR ''{'') s"
  from assms obtain c ao where d: "dropWhile (\<lambda>c. c \<noteq> CHR ''{'') s = c # ao"
    by (auto simp: re_search_def split: list.splits)
  from assms d obtain e bc where r: "dropWhile (\<lambda>c. c \<noteq> CHR ''}'') (rev ao) = e # bc"
    and m: "m = c # rev bc @ [e]"
    by (auto simp: re_search_def split: list.splits)
  let ?tw = "takeWhile (\<lambda>c. c \<noteq> CHR ''}'') (rev ao)"
  from d have c: "c = CHR ''{''"
    using dropWhile_eq_Cons_conv[of "\<lambda>c. c \<noteq> CHR ''{''" s c ao] by blast
  have "?pre @ dropWhile (\<lambda>c. c \<noteq> CHR ''{'') s = s" by (rule takeWhile_dropWhile_id)
  with d have s1: "s = ?pre @ c # ao" by simp
  from r have e: "e = CHR ''}''"
    using dropWhile_eq_Cons_conv[of "\<lambda>c. c \<noteq> CHR ''}''" "rev ao" e bc] by blast
  have "?tw @ dropWhile (\<lambda>c. c \<noteq> CHR ''}'') (rev ao) = rev ao" by (rule takeWhile_dropWhile_id)
  with r have r1: "rev ao = ?tw @ e # bc" by simp
  from r1 have "rev (rev ao) = rev (?tw @ e # bc)" by (rule arg_cong)
  then have ao: "ao = rev bc @ [e] @ rev ?tw" by simp
  from s1 ao m have s: "s = ?pre @ m @ rev ?tw" by simp
  have p1: "CHR ''{'' \<notin> set ?pre" by (auto dest: set_takeWhileD)
  have p2: "CHR ''}'' \<notin> set (rev ?tw)" by (auto dest: set_takeWhileD)
  from m c e have m': "m = CHR ''{'' # rev bc @ [CHR ''}'']" by simp
  from s m' p1 p2 show ?thesis by blast
qed

lemma re_search_span:
  assumes "CHR ''{'' \<notin> set pre" "CHR ''}'' \<notin> set post"
  shows "re_search (pre @ CHR ''{'' # mid @ CHR ''}'' # post) = Some (CHR ''{'' # mid @ [CHR ''}''])"
proof -
  have d: "dropWhile (\<lambda>c. c \<noteq> CHR ''{'') (pre @ CHR ''{'' # mid @ CHR ''}'' # post)
      = CHR ''{'' # mid @ CHR ''}'' # post"
    using assms(1) by (subst dropWhile_append2) auto
  have "rev (mid @ CHR ''}'' # post) = rev post @ CHR ''}'' # rev mid" by simp
  moreover have "dropWhile (\<lambda>c. c \<noteq> CHR ''}'') (rev post @ CHR ''}'' # rev mid) = CHR ''}'' # rev mid"
    using assms(2) by (subst dropWhile_append2) auto
  ultimately have r: "dropWhile (\<lambda>c. c \<noteq> CHR ''}'') (rev (mid @ CHR ''}'' # post)) = CHR ''}'' # rev mid"
    by simp
  show ?thesis unfolding re_search_def d using r by simp
qed

lemma re_search_iff:
  "re_search s = Some m \<longleftrightarrow>
     (\<exists>pre mid post. s = pre @ m @ post \<and> m = CHR ''{'' # mid @ [CHR ''}'']
        \<and> CHR ''{'' \<notin> set pre \<and> CHR ''}'' \<notin> set post)"
proof
  assume "re_search s = Some m"
  then show "\<exists>pre mid post. s = pre @ m @ post \<and> m = CHR ''{'' # mid @ [CHR ''}'']
        \<and> CHR ''{'' \<notin> set pre \<and> CHR ''}'' \<notin> set post"
    by (rule re_search_Some)
next
  assume "\<exists>pre mid post. s = pre @ m @ post \<and> m = CHR ''{'' # mid @ [CHR ''}'']
        \<and> CHR ''{'' \<notin> set pre \<and> CHR ''}'' \<notin> set post"
  then obtain pre mid post where "s = pre @ m @ post" "m = CHR ''{'' # mid @ [CHR ''}'']"
    "CHR ''{'' \<notin> set pre" "CHR ''}'' \<notin> set post" by blast
  then show "re_search s = Some m"
    using re_search_span[of pre post mid] by simp
qed

text \<open>
  C3. For the empty list of accumulated objects the analysis is the fixed report with
  threat level low, threat percentage 0 and risk breakdown 0, 0, 100, and no request
  is posted; \<open>stop_stream\<close> returns that report.
\<close>

theorem empty_accumulation_low_report:
  "analyze_threat_with_groq env (Some []) = Some (no_objects_report, [])
   \<and> stop_stream env \<lparr>accumulated_objects = Some []\<rparr> s
       = (s\<lparr>streaming := False\<rparr>,
          Some (JObj [(''message'', JStr ''Streaming stopped''), (''analysis'', no_objects_report)],
                []))
   \<and> getitem no_objects_report ''threat_level'' = Inr (JStr ''low'')
   \<and> getitem no_objects_report ''threat_percentage'' = Inr (JInt 0)
   \<and> getitem no_objects_report ''risk_breakdown''
       = Inr (JObj [(''high'', JInt 0), (''medium'', JInt 0), (''low'', JInt 100)])"
  by (simp add: analyze_threat_with_groq_def stop_stream_def no_objects_fields)

text \<open>
  C10. A stop request whose body has no \<open>accumulated_objects\<close> field carries the empty
  list, and \<open>stop_stream\<close> answers it with the fixed low report (threat percentage 0,
  risk breakdown 0, 0, 100) without posting a request.
\<close>

theorem stop_without_accumulated_objects:
  "accumulated_objects (StopStreamRequest Omitted) = Some []
   \<and> stop_stream env (StopStreamRequest Omitted) s
       = (s\<lparr>streaming := False\<rparr>,
          Some (JObj [(''message'', JStr ''Streaming stopped''), (''analysis'', no_objects_report)],
                []))
   \<and> getitem no_objects_report ''threat_level'' = Inr (JStr ''low'')
   \<and> getitem no_objects_report ''threat_percentage'' = Inr (JInt 0)
   \<and> getitem no_objects_report ''risk_breakdown''
       = Inr (JObj [(''high'', JInt 0), (''medium'', JInt 0), (''low'', JInt 100)])"
  by (simp add: StopStreamRequest_def analyze_threat_with_groq_def stop_stream_def no_objects_fields)

text \<open>
  C1. When the \<open>try\<close> block fails on a non-empty list of objects, the report is the
  one of the fallback. With \<open>matched\<close> the objects whose class name, once \<open>.lower()\<close>
  is applied, contains weapon, knife, gun or scissors: if there are any, the threat
  level is high, the percentage is min(100, 20 * number matched), the breakdown is that
  percentage, its complement to 100, and 0, and the detected keywords are the class
  names matched; if there are none, the threat level is low and the percentage 0. One
  match gives 20; two give 40 and the breakdown 40, 60, 0. This holds whatever
  \<open>str.lower\<close> does to a name, so for names in any script.
\<close>

theorem fallback_on_failure:
  assumes "objs \<noteq> []"
    and "groq_analysis env (make_prompt env objs) = Some (Inl e, calls)"
  shows "let matched = filter (\<lambda>obj. \<exists>kw \<in> set [''weapon'', ''knife'', ''gun'', ''scissors''].
                                 sublist kw (str_lower env (class_name obj))) objs;
             pct = min 100 (20 * int (length matched));
             r = fallback_report (str_lower env) objs
         in analyze_threat_with_groq env (Some objs) = Some (r, calls)
          \<and> (matched \<noteq> [] \<longrightarrow>
                getitem r ''threat_level'' = Inr (JStr ''high'')
              \<and> getitem r ''threat_percentage'' = Inr (JInt pct)
              \<and> getitem r ''risk_breakdown''
                  = Inr (JObj [(''high'', JInt pct), (''medium'', JInt (100 - pct)), (''low'', JInt 0)])
              \<and> getitem r ''detected_keywords''
                  = Inr (JArr (map (\<lambda>obj. JStr (class_name obj)) matched)))
          \<and> (matched = [] \<longrightarrow>
                getitem r ''threat_level'' = Inr (JStr ''low'')
              \<and> getitem r ''threat_percentage'' = Inr (JInt 0))
          \<and> (length matched = 1 \<longrightarrow> getitem r ''threat_percentage'' = Inr (JInt 20))
          \<and> (length matched = 2 \<longrightarrow>
                getitem r ''threat_percentage'' = Inr (JInt 40)
              \<and> getitem r ''risk_breakdown''
                  = Inr (JObj [(''high'', JInt 40), (''medium'', JInt 60), (''low'', JInt 0)]))"
proof -
  have r: "analyze_threat_with_groq env (Some objs)
      = Some (fallback_report (str_lower env) objs, calls)"
    using assms by (simp add: analyze_nonempty)
  show ?thesis
    unfolding is_dangerous_sublist [symmetric] Let_def r
    by (auto simp: fallback_report_def Let_def getitem_report breakdown_def mult.commute comp_def)
qed

theorem fallback_on_failure_witness:
  "groq_analysis
     \<lparr>GROQ_API_KEY = None, requests_installed = True,
      requests_post = reply_with \<lparr>status_code = 500, response_json = Inl JSONDecodeError\<rparr>,
      format_2f = fixed_format ''0.90'', str_lower = ascii_lower\<rparr>
     (make_prompt
        \<lparr>GROQ_API_KEY = None, requests_installed = True,
         requests_post = reply_with \<lparr>status_code = 500, response_json = Inl JSONDecodeError\<rparr>,
         format_2f = fixed_format ''0.90'', str_lower = ascii_lower\<rparr>
        [\<lparr>class_name = ''knife'', confidence = Finite (9 / 10)\<rparr>])
     = Some (Inl ValueError, [])
   \<and> analyze_threat_with_groq
       \<lparr>GROQ_API_KEY = None, requests_installed = True,
        requests_post = reply_with \<lparr>status_code = 500, response_json = Inl JSONDecodeError\<rparr>,
        format_2f = fixed_format ''0.90'', str_lower = ascii_lower\<rparr>
       (Some [\<lparr>class_name = ''knife'', confidence = Finite (9 / 10)\<rparr>])
     = Some (report ''high'' 20 (breakdown 20 80 0) ''Dangerous objects detected: knife.''
              [''knife''] ''High-risk situation detected with 1 dangerous objects.''
              [''Issue immediate alert: sharp weapon detected'',
               ''Alert local law enforcement for potential threat'',
               ''Discourage any approach '' @ [CHR 0xE2, CHR 0x80, CHR 0x94]
                 @ '' object could be concealed or used rapidly''],
             [])
   \<and> getitem (fallback_report ascii_lower
         [\<lparr>class_name = ''Kitchen Knife'', confidence = Finite (9 / 10)\<rparr>,
          \<lparr>class_name = ''person'', confidence = Finite (8 / 10)\<rparr>,
          \<lparr>class_name = ''scissors'', confidence = Finite (1 / 2)\<rparr>]) ''risk_breakdown''
       = Inr (JObj [(''high'', JInt 40), (''medium'', JInt 60), (''low'', JInt 0)])"
proof -
  let ?env = "\<lparr>GROQ_API_KEY = None, requests_installed = True,
      requests_post = reply_with \<lparr>status_code = 500, response_json = Inl JSONDecodeError\<rparr>,
      format_2f = fixed_format ''0.90'', str_lower = ascii_lower\<rparr>"
  let ?one = "[\<lparr>class_name = ''knife'', confidence = Finite (9 / 10)\<rparr>]"
  let ?three = "[\<lparr>class_name = ''Kitchen Knife'', confidence = Finite (9 / 10)\<rparr>,
          \<lparr>class_name = ''person'', confidence = Finite (8 / 10)\<rparr>,
          \<lparr>class_name = ''scissors'', confidence = Finite (1 / 2)\<rparr>]"
  have fails: "groq_analysis ?env p = Some (Inl ValueError, [])" for p
    by (simp add: groq_analysis_def)
  have l: "str_lower ?env = ascii_lower" by simp
  have m3: "filter (\<lambda>obj. \<exists>kw \<in> set [''weapon'', ''knife'', ''gun'', ''scissors''].
              sublist kw (ascii_lower (class_name obj))) ?three
      = [\<lparr>class_name = ''Kitchen Knife'', confidence = Finite (9 / 10)\<rparr>,
         \<lparr>class_name = ''scissors'', confidence = Finite (1 / 2)\<rparr>]"
    by code_simp
  have f1: "fallback_report ascii_lower ?one
       = report ''high'' 20 (breakdown 20 80 0) ''Dangerous objects detected: knife.''
           [''knife''] ''High-risk situation detected with 1 dangerous objects.''
           [''Issue immediate alert: sharp weapon detected'',
            ''Alert local law enforcement for potential threat'',
            ''Discourage any approach '' @ [CHR 0xE2, CHR 0x80, CHR 0x94]
              @ '' object could be concealed or used rapidly'']"
    by code_simp
  have ne1: "?one \<noteq> []" and ne3: "?three \<noteq> []" by simp_all
  note t1 = fallback_on_failure [OF ne1 fails, unfolded Let_def l, THEN conjunct1]
  note t3 = fallback_on_failure [OF ne3 fails, unfolded Let_def l m3,
    THEN conjunct2, THEN conjunct2, THEN conjunct2, THEN conjunct2, rule_format, THEN conjunct2]
  have one: "analyze_threat_with_groq ?env (Some ?one)
     = Some (report ''high'' 20 (breakdown 20 80 0) ''Dangerous objects detected: knife.''
              [''knife''] ''High-risk situation detected with 1 dangerous objects.''
              [''Issue immediate alert: sharp weapon detected'',
               ''Alert local law enforcement for potential threat'',
               ''Discourage any approach '' @ [CHR 0xE2, CHR 0x80, CHR 0x94]
                 @ '' object could be concealed or used rapidly''],
             [])"
    using t1 unfolding f1 .
  have three: "getitem (fallback_report ascii_lower ?three) ''risk_breakdown''
       = Inr (JObj [(''high'', JInt 40), (''medium'', JInt 60), (''low'', JInt 0)])"
    by (rule t3) simp
  show ?thesis by (intro conjI) (rule fails, rule one, rule three)
qed

text \<open>
  The call to the service has no timeout: when the service never answers, neither the
  analysis nor \<open>stop_stream\<close> returns, though the streaming flag is already off.
\<close>

lemma analysis_never_returns:
  assumes "objs \<noteq> []"
    and "GROQ_API_KEY env = Some key" and "key \<noteq> []" and "requests_installed env"
    and "requests_post env (make_request key (make_prompt env objs)) = PostHangs"
  shows "analyze_threat_with_groq env (Some objs) = None"
    and "stop_stream env \<lparr>accumulated_objects = Some objs\<rparr> s = (s\<lparr>streaming := False\<rparr>, None)"
proof -
  have "groq_analysis env (make_prompt env objs) = None"
    using assms by (simp add: groq_analysis_def Let_def)
  then show a: "analyze_threat_with_groq env (Some objs) = None"
    using assms(1) by (simp add: analyze_nonempty)
  then show "stop_stream env \<lparr>accumulated_objects = Some objs\<rparr> s = (s\<lparr>streaming := False\<rparr>, None)"
    by (simp add: stop_stream_def)
qed

text \<open>
  C2, as amended. Whenever the call to the service returns or raises, the function
  returns a report and posts at most one request. For an empty accumulation the report
  is the fixed one. Otherwise the \<open>try\<close> block succeeds exactly when there is a
  non-empty key, \<open>requests\<close> can be imported, the service answers with status 200 and
  a body that decodes, the message content is a string with braces in it, and the text
  from the first opening to the last closing brace is JSON; then the report is that
  decoded object as it is, whatever its keys. In every other case the report is the
  one of the fallback. The fixed report and the fallback report are valid threat
  reports, with all seven keys.
\<close>

theorem failures_absorbed_by_fallback:
  assumes "\<forall>req. requests_post env req \<noteq> PostHangs"
  shows "\<exists>report calls.
      analyze_threat_with_groq env acc = Some (report, calls)
    \<and> length calls \<le> 1
    \<and> (acc = None \<or> acc = Some [] \<longrightarrow> report = no_objects_report \<and> calls = [])
    \<and> (\<forall>objs. acc = Some objs \<and> objs \<noteq> [] \<longrightarrow>
          (\<exists>r. groq_analysis env (make_prompt env objs) = Some (r, calls)
             \<and> (case r of
                   Inl e \<Rightarrow> report = fallback_report (str_lower env) objs
                 | Inr analysis_json \<Rightarrow> report = analysis_json)))
    \<and> valid_report no_objects_report \<and> has_report_keys no_objects_report
    \<and> (\<forall>objs. valid_report (fallback_report (str_lower env) objs)
              \<and> has_report_keys (fallback_report (str_lower env) objs))
    \<and> (\<forall>p j c. groq_analysis env p = Some (Inr j, c) \<longleftrightarrow>
          (\<exists>key r response_data t m.
              GROQ_API_KEY env = Some key \<and> key \<noteq> [] \<and> requests_installed env
            \<and> requests_post env (make_request key p) = PostReturns r
            \<and> status_code r = 200 \<and> response_json r = Inr response_data
            \<and> message_content response_data = Inr (JStr t) \<and> re_search t = Some m
            \<and> json_loads m = Inr j \<and> c = [make_request key p]))"
proof -
  have v: "valid_report no_objects_report \<and> has_report_keys no_objects_report"
    using valid_report_no_objects by (simp add: valid_report_def)
  have f: "\<forall>objs. valid_report (fallback_report (str_lower env) objs)
              \<and> has_report_keys (fallback_report (str_lower env) objs)"
    using valid_report_fallback by (simp add: valid_report_def)
  have s: "\<forall>p j c. groq_analysis env p = Some (Inr j, c) \<longleftrightarrow>
          (\<exists>key r response_data t m.
              GROQ_API_KEY env = Some key \<and> key \<noteq> [] \<and> requests_installed env
            \<and> requests_post env (make_request key p) = PostReturns r
            \<and> status_code r = 200 \<and> response_json r = Inr response_data
            \<and> message_content response_data = Inr (JStr t) \<and> re_search t = Some m
            \<and> json_loads m = Inr j \<and> c = [make_request key p])"
    unfolding groq_analysis_Inr on_response_Inr by blast
  show ?thesis
  proof (cases "acc = None \<or> acc = Some []")
    case True
    then have "analyze_threat_with_groq env acc = Some (no_objects_report, [])"
      by (auto simp: analyze_threat_with_groq_def)
    with True v f s show ?thesis by auto
  next
    case False
    then obtain objs where acc: "acc = Some objs" and ne: "objs \<noteq> []" by auto
    from groq_analysis_returns[OF assms, of "make_prompt env objs"] obtain r calls where
      g: "groq_analysis env (make_prompt env objs) = Some (r, calls)" by blast
    from groq_analysis_calls[OF g] have c: "length calls \<le> 1" .
    define report where "report = (case r of
        Inl e \<Rightarrow> fallback_report (str_lower env) objs | Inr analysis_json \<Rightarrow> analysis_json)"
    have a: "analyze_threat_with_groq env acc = Some (report, calls)"
      using acc ne g by (cases r) (simp_all add: analyze_nonempty report_def)
    have r: "case r of
        Inl e \<Rightarrow> report = fallback_report (str_lower env) objs
      | Inr analysis_json \<Rightarrow> report = analysis_json"
      by (cases r) (simp_all add: report_def)
    have 4: "\<forall>objs'. acc = Some objs' \<and> objs' \<noteq> [] \<longrightarrow>
          (\<exists>r. groq_analysis env (make_prompt env objs') = Some (r, calls)
             \<and> (case r of
                   Inl e \<Rightarrow> report = fallback_report (str_lower env) objs'
                 | Inr analysis_json \<Rightarrow> report = analysis_json))"
      using acc g r by auto
    have 3: "acc = None \<or> acc = Some [] \<longrightarrow> report = no_objects_report \<and> calls = []"
      using False by blast
    from a c 3 4 v f s show ?thesis
      by (intro exI[of _ report] exI[of _ calls] conjI) (assumption | simp)+
  qed
qed

theorem failures_absorbed_by_fallback_witness:
  "analyze_threat_with_groq
     \<lparr>GROQ_API_KEY = Some ''key'', requests_installed = True,
      requests_post = reply_with \<lparr>status_code = 503, response_json = Inl JSONDecodeError\<rparr>,
      format_2f = fixed_format ''0.90'', str_lower = ascii_lower\<rparr>
     (Some [\<lparr>class_name = ''knife'', confidence = Finite (9 / 10)\<rparr>])
   = Some (fallback_report ascii_lower [\<lparr>class_name = ''knife'', confidence = Finite (9 / 10)\<rparr>],
      [make_request ''key''
         (make_prompt
            \<lparr>GROQ_API_KEY = Some ''key'', requests_installed = True,
             requests_post = reply_with \<lparr>status_code = 503, response_json = Inl JSONDecodeError\<rparr>,
             format_2f = fixed_format ''0.90'', str_lower = ascii_lower\<rparr>
            [\<lparr>class_name = ''knife'', confidence = Finite (9 / 10)\<rparr>])])
   \<and> valid_report
        (fallback_report ascii_lower [\<lparr>class_name = ''knife'', confidence = Finite (9 / 10)\<rparr>])"
proof -
  define env where "env = \<lparr>GROQ_API_KEY = Some ''key'', requests_installed = True,
      requests_post = reply_with \<lparr>status_code = 503, response_json = Inl JSONDecodeError\<rparr>,
      format_2f = fixed_format ''0.90'', str_lower = ascii_lower\<rparr>"
  define objs where "objs = [\<lparr>class_name = ''knife'', confidence = Finite (9 / 10)\<rparr>]"
  have h: "\<forall>req. requests_post env req \<noteq> PostHangs"
    by (simp add: env_def reply_with_def)
  have l: "str_lower env = ascii_lower" by (simp add: env_def)
  have ne: "objs \<noteq> []" by (simp add: objs_def)
  have g: "groq_analysis env (make_prompt env objs)
      = Some (Inl ValueError, [make_request ''key'' (make_prompt env objs)])"
    by (simp add: groq_analysis_def reply_with_def Let_def on_response_def env_def)
  from failures_absorbed_by_fallback [OF h, of "Some objs"] obtain report calls where
    a: "analyze_threat_with_groq env (Some objs) = Some (report, calls)"
    and 4: "\<forall>objs'. Some objs = Some objs' \<and> objs' \<noteq> [] \<longrightarrow>
          (\<exists>r. groq_analysis env (make_prompt env objs') = Some (r, calls)
             \<and> (case r of
                   Inl e \<Rightarrow> report = fallback_report (str_lower env) objs'
                 | Inr analysis_json \<Rightarrow> report = analysis_json))"
    and f: "\<forall>objs. valid_report (fallback_report (str_lower env) objs)
              \<and> has_report_keys (fallback_report (str_lower env) objs)"
    by blast
  from 4 ne obtain r where "groq_analysis env (make_prompt env objs) = Some (r, calls)"
    and c: "case r of
        Inl e \<Rightarrow> report = fallback_report (str_lower env) objs
      | Inr analysis_json \<Rightarrow> report = analysis_json"
    by blast
  with g have "r = Inl ValueError" and "calls = [make_request ''key'' (make_prompt env objs)]"
    by simp_all
  with c l have "report = fallback_report ascii_lower objs" by simp
  with a \<open>calls = [make_request ''key'' (make_prompt env objs)]\<close>
  have 1: "analyze_threat_with_groq env (Some objs)
      = Some (fallback_report ascii_lower objs, [make_request ''key'' (make_prompt env objs)])"
    by simp
  from f l have 2: "valid_report (fallback_report ascii_lower objs)" by simp
  from 1 2 show ?thesis unfolding env_def objs_def by (intro conjI)
qed

text \<open>
  The claim as first stated, that the caller always gets a report with all seven
  keys, fails: the service may answer with any JSON object, here the empty one, and
  that object is what the function returns.
\<close>

theorem external_object_returned_unchecked:
  "analyze_threat_with_groq
     \<lparr>GROQ_API_KEY = Some ''key'', requests_installed = True,
      requests_post = reply_with
        \<lparr>status_code = 200,
         response_json =
           Inr (JObj [(''choices'',
                       JArr [JObj [(''message'', JObj [(''content'', JStr ''{}'')])]])])\<rparr>,
      format_2f = fixed_format ''0.90'', str_lower = ascii_lower\<rparr>
     (Some [\<lparr>class_name = ''knife'', confidence = Finite (9 / 10)\<rparr>])
   = Some (JObj [],
      [make_request ''key''
         (make_prompt
            \<lparr>GROQ_API_KEY = Some ''key'', requests_installed = True,
             requests_post = reply_with
               \<lparr>status_code = 200,
                response_json =
                  Inr (JObj [(''choices'',
                              JArr [JObj [(''message'', JObj [(''content'', JStr ''{}'')])]])])\<rparr>,
             format_2f = fixed_format ''0.90'', str_lower = ascii_lower\<rparr>
            [\<lparr>class_name = ''knife'', confidence = Finite (9 / 10)\<rparr>])])
   \<and> \<not> has_report_keys (JObj [])
   \<and> getitem (JObj []) ''threat_level'' = Inl KeyError"
proof -
  have b: "on_response
      \<lparr>status_code = 200,
       response_json =
         Inr (JObj [(''choices'',
                     JArr [JObj [(''message'', JObj [(''content'', JStr ''{}'')])]])])\<rparr>
    = Inr (JObj [])"
    by code_simp
  have k: "\<not> has_report_keys (JObj [])" "getitem (JObj []) ''threat_level'' = Inl KeyError"
    by (simp_all add: has_report_keys_def report_keys_def getitem_def)
  show ?thesis
    using b k by (simp add: analyze_threat_with_groq_def groq_analysis_def reply_with_def Let_def)
qed

text \<open>
  C9, as amended. When the service answers with status 200 and a message content that
  is a string, the part of the content decoded is the one from its first opening brace
  to its last closing brace. If that part is JSON, its value is returned; if it is not,
  or there is no such part, the fallback report is returned.
\<close>

theorem analysis_is_first_to_last_brace:
  assumes "objs \<noteq> []"
    and "GROQ_API_KEY env = Some key" and "key \<noteq> []" and "requests_installed env"
    and "requests_post env (make_request key (make_prompt env objs)) = PostReturns r"
    and "status_code r = 200"
    and "response_json r = Inr response_data"
    and "message_content response_data = Inr (JStr analysis_text)"
  shows "map_option fst (analyze_threat_with_groq env (Some objs))
      = Some (case re_search analysis_text of
                None \<Rightarrow> fallback_report (str_lower env) objs
              | Some json_match \<Rightarrow>
                  (case json_loads json_match of
                     Inr analysis_json \<Rightarrow> analysis_json
                   | Inl e \<Rightarrow> fallback_report (str_lower env) objs))
    \<and> (\<forall>m. re_search analysis_text = Some m \<longleftrightarrow>
          (\<exists>pre mid post. analysis_text = pre @ m @ post
             \<and> m = CHR ''{'' # mid @ [CHR ''}'']
             \<and> CHR ''{'' \<notin> set pre \<and> CHR ''}'' \<notin> set post))"
proof -
  have "groq_analysis env (make_prompt env objs)
      = Some (extract_json (JStr analysis_text), [make_request key (make_prompt env objs)])"
    using assms by (simp add: groq_analysis_def Let_def on_response_def)
  then have "map_option fst (analyze_threat_with_groq env (Some objs))
      = Some (case extract_json (JStr analysis_text) of
                Inr j \<Rightarrow> j | Inl e \<Rightarrow> fallback_report (str_lower env) objs)"
    using assms(1) by (simp add: analyze_nonempty split: sum.splits)
  then have "map_option fst (analyze_threat_with_groq env (Some objs))
      = Some (case re_search analysis_text of
                None \<Rightarrow> fallback_report (str_lower env) objs
              | Some json_match \<Rightarrow>
                  (case json_loads json_match of
                     Inr analysis_json \<Rightarrow> analysis_json
                   | Inl e \<Rightarrow> fallback_report (str_lower env) objs))"
    by (simp add: extract_json_def split: option.splits sum.splits)
  then show ?thesis using re_search_iff[of analysis_text] by blast
qed

theorem analysis_is_first_to_last_brace_witness:
  "message_content
        (JObj [(''choices'',
                JArr [JObj [(''message'', JObj [(''content'', JStr ''Report: {} (ends)'')])]])])
     = Inr (JStr ''Report: {} (ends)'')
   \<and> re_search ''Report: {} (ends)'' = Some ''{}''
   \<and> map_option fst (analyze_threat_with_groq
         \<lparr>GROQ_API_KEY = Some ''key'', requests_installed = True,
          requests_post = reply_with
            \<lparr>status_code = 200,
             response_json =
               Inr (JObj [(''choices'',
                     JArr [JObj [(''message'',
                                  JObj [(''content'', JStr ''Report: {} (ends)'')])]])])\<rparr>,
          format_2f = fixed_format ''0.90'', str_lower = ascii_lower\<rparr>
         (Some [\<lparr>class_name = ''knife'', confidence = Finite (9 / 10)\<rparr>]))
     = Some (JObj [])"
proof -
  define data where "data = JObj [(''choices'',
                JArr [JObj [(''message'', JObj [(''content'', JStr ''Report: {} (ends)'')])]])]"
  define r where "r = \<lparr>status_code = 200, response_json = Inr data\<rparr>"
  define env where "env = \<lparr>GROQ_API_KEY = Some ''key'', requests_installed = True,
      requests_post = reply_with r, format_2f = fixed_format ''0.90'', str_lower = ascii_lower\<rparr>"
  define objs where "objs = [\<lparr>class_name = ''knife'', confidence = Finite (9 / 10)\<rparr>]"
  have 1: "objs \<noteq> []" by (simp add: objs_def)
  have 2: "GROQ_API_KEY env = Some ''key''" by (simp add: env_def)
  have 3: "''key'' \<noteq> []" by simp
  have 4: "requests_installed env" by (simp add: env_def)
  have 5: "requests_post env (make_request ''key'' (make_prompt env objs)) = PostReturns r"
    by (simp add: env_def reply_with_def)
  have 6: "status_code r = 200" by (simp add: r_def)
  have 7: "response_json r = Inr data" by (simp add: r_def)
  have 8: "message_content data = Inr (JStr ''Report: {} (ends)'')"
    unfolding data_def by code_simp
  have 9: "re_search ''Report: {} (ends)'' = Some ''{}''" by code_simp
  have 10: "json_loads ''{}'' = Inr (JObj [])" by code_simp
  note t = analysis_is_first_to_last_brace [OF 1 2 3 4 5 6 7 8, THEN conjunct1]
  have "map_option fst (analyze_threat_with_groq env (Some objs)) = Some (JObj [])"
    using t unfolding 9 by (simp add: 10)
  with 8 9 show ?thesis unfolding env_def r_def data_def objs_def by (intro conjI)
qed

text \<open>
  The claim as first stated, that the first well-formed object in the content is
  returned, fails when more text with a closing brace follows that object: the content
  \<open>{} {}\<close> begins with the object \<open>{}\<close>, the part decoded is all of it, which is not
  JSON, and the fallback report is returned.
\<close>

theorem first_object_not_returned:
  "json_loads (take 2 ''{} {}'') = Inr (JObj [])
   \<and> re_search ''{} {}'' = Some ''{} {}''
   \<and> json_loads ''{} {}'' = Inl JSONDecodeError
   \<and> map_option fst (analyze_threat_with_groq
         \<lparr>GROQ_API_KEY = Some ''key'', requests_installed = True,
          requests_post = reply_with
            \<lparr>status_code = 200,
             response_json =
               Inr (JObj [(''choices'',
                     JArr [JObj [(''message'', JObj [(''content'', JStr ''{} {}'')])]])])\<rparr>,
          format_2f = fixed_format ''0.90'', str_lower = ascii_lower\<rparr>
         (Some [\<lparr>class_name = ''person'', confidence = Finite (9 / 10)\<rparr>]))
     = Some (fallback_report ascii_lower [\<lparr>class_name = ''person'', confidence = Finite (9 / 10)\<rparr>])
   \<and> fallback_report ascii_lower [\<lparr>class_name = ''person'', confidence = Finite (9 / 10)\<rparr>]
       \<noteq> JObj []"
proof -
  have a: "json_loads (take 2 ''{} {}'') = Inr (JObj [])" by code_simp
  have b: "re_search ''{} {}'' = Some ''{} {}''" by code_simp
  have c: "json_loads ''{} {}'' = Inl JSONDecodeError" by code_simp
  have d: "on_response
      \<lparr>status_code = 200,
       response_json =
         Inr (JObj [(''choices'',
               JArr [JObj [(''message'', JObj [(''content'', JStr ''{} {}'')])]])])\<rparr>
    = Inl JSONDecodeError"
    by code_simp
  have e: "fallback_report ascii_lower [\<lparr>class_name = ''person'', confidence = Finite (9 / 10)\<rparr>]
      \<noteq> JObj []"
    by (simp add: fallback_report_def Let_def report_def)
  show ?thesis
    using a b c d e
    by (simp add: analyze_threat_with_groq_def groq_analysis_def reply_with_def Let_def)
qed

end
